theory Spec2Isabelle
  imports Main
begin

unbundle bit_operations_syntax

section \<open>Food records (maxprotein.hh, class Food)\<close>

text \<open>
  One food item. The C++ fields are \<open>std::string\<close> and \<open>int\<close>. The numeric fields are
  integers here; the sums that the code forms in an \<open>int\<close> go through \<open>int32\<close> below.
\<close>

record Food =
  description :: string
  amount :: string
  amount_g :: int
  kcal :: int
  protein_g :: int

text \<open>The assertions of the constructor of \<open>Food\<close>: the invariant of every record.\<close>

definition valid_food :: "Food \<Rightarrow> bool" where
  "valid_food f \<longleftrightarrow>
     description f \<noteq> [] \<and> amount f \<noteq> [] \<and> 0 \<le> amount_g f \<and> 0 \<le> kcal f \<and> 0 \<le> protein_g f"

text \<open>
  \<open>FoodVector\<close> is a vector of shared pointers to immutable records; nothing in the three
  operations looks at pointer identity, so a vector is the list of the records it points to.
\<close>

type_synonym FoodVector = "Food list"

text \<open>
  What can go wrong in the C++: a failed \<open>assert\<close>, the read of a local \<open>int\<close> that was
  never assigned, and a vector access or \<open>erase\<close> at a position that is not an element.
  The last two are undefined behaviour: the language gives the rest of such a run no
  meaning, and a run that reaches one ends here with the error that names it.
\<close>

datatype error = AssertionFailed | UninitializedRead | OutOfRange

text \<open>
  The value that a 32-bit \<open>int\<close> holds after a sum: two's complement wrap-around. The
  language leaves a signed sum outside the range undefined; the usual targets wrap. Inside the
  range \<open>int32\<close> changes nothing.
\<close>

definition int32 :: "int \<Rightarrow> int" where
  "int32 x = (x + 2 ^ 31) mod 2 ^ 32 - 2 ^ 31"

section \<open>sum_food_vector\<close>

text \<open>Both totals start at 0 and every food adds its calories and its protein.\<close>

definition sum_food_vector :: "FoodVector \<Rightarrow> int \<times> int" where
  "sum_food_vector foods =
     fold (\<lambda>food (total_kcal, total_protein_g).
             (int32 (total_kcal + kcal food), int32 (total_protein_g + protein_g food)))
       foods (0, 0)"

section \<open>filter_food_vector\<close>

text \<open>
  The \<open>for\<close> loop of \<open>filter_food_vector\<close>: \<open>n\<close> is the index, \<open>sz\<close> the variable
  \<open>size\<close>, and the loop stops as soon as \<open>total_size_counter\<close> reaches \<open>total_size\<close>.
\<close>

function filter_for ::
  "FoodVector \<Rightarrow> int \<Rightarrow> int \<Rightarrow> int \<Rightarrow> nat \<Rightarrow> nat \<Rightarrow> int \<Rightarrow> FoodVector \<Rightarrow> FoodVector" where
  "filter_for source min_kcal max_kcal total_size sz n total_size_counter filteredFood =
     (if n < sz \<and> total_size_counter < total_size then
        (if kcal (source ! n) \<noteq> 0 \<and> kcal (source ! n) \<ge> min_kcal \<and> kcal (source ! n) \<le> max_kcal
         then filter_for source min_kcal max_kcal total_size sz (n + 1)
                (total_size_counter + 1) (filteredFood @ [source ! n])
         else filter_for source min_kcal max_kcal total_size sz (n + 1)
                total_size_counter filteredFood)
      else filteredFood)"
  by pat_completeness auto
termination
  by (relation "measure (\<lambda>(source, min_kcal, max_kcal, total_size, sz, n, cnt, acc). sz - n)") auto

declare filter_for.simps [simp del]

definition filter_food_vector :: "FoodVector \<Rightarrow> int \<Rightarrow> int \<Rightarrow> int \<Rightarrow> FoodVector" where
  "filter_food_vector source min_kcal max_kcal total_size =
     filter_for source min_kcal max_kcal total_size (length source) 0 0 []"

section \<open>greedy_max_protein\<close>

text \<open>\<open>todo.erase(todo.begin() + i)\<close> for a position \<open>i\<close> inside the vector.\<close>

definition erase :: "'a list \<Rightarrow> nat \<Rightarrow> 'a list" where
  "erase xs i = take i xs @ drop (Suc i) xs"

text \<open>
  The locals \<open>protein_location\<close> and \<open>c\<close> are declared without an initial value, before the
  \<open>while\<close> loop. They are modelled as options: \<open>None\<close> until the scan assigns them, and
  they keep their value from one iteration of the \<open>while\<close> loop to the next.

  One pass of the inner \<open>for\<close> loop at index \<open>i\<close>:
\<close>

definition scan_step ::
  "FoodVector \<Rightarrow> nat \<Rightarrow> int \<times> nat option \<times> int option \<Rightarrow> int \<times> nat option \<times> int option" where
  "scan_step todo i s =
     (case s of (protein, protein_location, c) \<Rightarrow>
        if protein < protein_g (todo ! i)
        then (protein_g (todo ! i), Some i, Some (kcal (todo ! i)))
        else (protein, protein_location, c))"

definition greedy_scan ::
  "FoodVector \<Rightarrow> nat \<Rightarrow> int \<times> nat option \<times> int option \<Rightarrow> int \<times> nat option \<times> int option" where
  "greedy_scan todo sz s = fold (scan_step todo) [0..<sz] s"

text \<open>
  The locals of the \<open>while\<close> loop at the head of an iteration:
  \<open>(todo, result, size, result_cal, protein_location, c)\<close>. The local \<open>protein\<close> is 0 there
  (it is initialised to 0 and set back to 0 at the end of the body).
\<close>

type_synonym greedy_state = "FoodVector \<times> FoodVector \<times> nat \<times> int \<times> nat option \<times> int option"

text \<open>
  The body of the \<open>while\<close> loop: the scan, the acceptance test, the erase and the
  decrement of \<open>size\<close>. Reading \<open>c\<close> or \<open>protein_location\<close> while it is unassigned, and
  using a \<open>protein_location\<close> that is not a position of \<open>todo\<close> (after an erase of the last
  element, the position kept from the iteration before is the end of the vector), are
  undefined behaviour in C++ and errors here.
\<close>

definition greedy_iteration :: "int \<Rightarrow> greedy_state \<Rightarrow> error + greedy_state" where
  "greedy_iteration total_kcal st =
     (case st of (todo, res, sz, result_cal, protein_location, c) \<Rightarrow>
        (case greedy_scan todo sz (0, protein_location, c) of
           (protein, protein_location', c') \<Rightarrow>
             (case c' of
                None \<Rightarrow> Inl UninitializedRead
              | Some cv \<Rightarrow>
                 (case protein_location' of
                    None \<Rightarrow> Inl UninitializedRead
                  | Some pl \<Rightarrow>
                     if \<not> pl < length todo then Inl OutOfRange
                     else if int32 (result_cal + cv) \<le> total_kcal
                     then Inr (erase todo pl, res @ [todo ! pl], sz - 1,
                               int32 (result_cal + cv), protein_location', c')
                     else Inr (erase todo pl, res, sz - 1,
                               result_cal, protein_location', c')))))"

text \<open>The \<open>while\<close> loop: the body runs as long as \<open>size != 0\<close>; \<open>sz\<close> is the variable \<open>size\<close>.\<close>

function greedy_while ::
  "int \<Rightarrow> FoodVector \<Rightarrow> FoodVector \<Rightarrow> nat \<Rightarrow> int \<Rightarrow> nat option \<Rightarrow> int option \<Rightarrow> error + FoodVector" where
  "greedy_while total_kcal todo res sz result_cal protein_location c =
     (if sz \<noteq> 0 then
        (case greedy_iteration total_kcal (todo, res, sz, result_cal, protein_location, c) of
           Inl e \<Rightarrow> Inl e
         | Inr (todo', res', sz', result_cal', protein_location', c') \<Rightarrow>
             greedy_while total_kcal todo' res' sz' result_cal' protein_location' c')
      else Inr res)"
  by pat_completeness auto
termination
  by (relation "measure (\<lambda>(total_kcal, todo, res, sz, result_cal, protein_location, c). sz)")
     (auto simp: greedy_iteration_def split: prod.splits option.splits if_splits)

declare greedy_while.simps [simp del]

text \<open>
  The body run \<open>k\<close> times in a row from a state, to speak of the state after a given number
  of iterations.
\<close>

fun greedy_iterate :: "nat \<Rightarrow> int \<Rightarrow> greedy_state \<Rightarrow> error + greedy_state" where
  "greedy_iterate 0 total_kcal st = Inr st"
| "greedy_iterate (Suc k) total_kcal st =
     (case greedy_iteration total_kcal st of
        Inl e \<Rightarrow> Inl e
      | Inr st' \<Rightarrow> greedy_iterate k total_kcal st')"

definition greedy_max_protein :: "FoodVector \<Rightarrow> int \<Rightarrow> error + FoodVector" where
  "greedy_max_protein foods total_kcal =
     greedy_while total_kcal foods [] (length foods) 0 None None"

section \<open>exhaustive_max_protein\<close>

text \<open>
  The counter \<open>bits\<close> is a \<open>uint64_t\<close> that runs from 0 while \<open>bits < pow(2.0, n)\<close>. After
  the assertion \<open>n < 64\<close> it stays below \<open>2 ^ 63\<close>, so it never wraps and a natural number
  holds it exactly; \<open>(bits >> j) & 1\<close> is \<open>drop_bit j bits AND 1\<close>. The comparison is taken
  exactly (a \<open>double\<close> holds every \<open>bits\<close> below \<open>2 ^ 53\<close> exactly).

  The trial subset of one value of \<open>bits\<close>:
\<close>

definition exhaustive_candidate :: "FoodVector \<Rightarrow> nat \<Rightarrow> nat \<Rightarrow> FoodVector" where
  "exhaustive_candidate foods n bits =
     fold (\<lambda>j candidate. if drop_bit j bits AND 1 = 1 then candidate @ [foods ! j] else candidate)
       [0..<n] []"

text \<open>
  The body of the outer \<open>for\<close> loop (without its printing statements), on the locals
  \<open>(total_calories, total_protein, total_protein_best, result)\<close>. The two totals are
  declared before the loop and the body only ever adds to them: the call of
  \<open>sum_food_vector\<close> that would set them is commented out in the source.
\<close>

fun exhaustive_body ::
  "FoodVector \<Rightarrow> int \<Rightarrow> nat \<Rightarrow> nat \<Rightarrow> int \<times> int \<times> int \<times> FoodVector \<Rightarrow> int \<times> int \<times> int \<times> FoodVector" where
  "exhaustive_body foods total_kcal n bits (total_calories, total_protein, total_protein_best, res) =
     (let candidate = exhaustive_candidate foods n bits;
          total_calories' = fold (\<lambda>f t. int32 (t + kcal f)) candidate total_calories;
          total_protein' = fold (\<lambda>f t. int32 (t + protein_g f)) candidate total_protein
      in if total_calories' \<le> total_kcal
         then (if total_protein_best = 0 \<or> total_protein' > total_protein_best
               then (total_calories', total_protein', total_protein', candidate)
               else (total_calories', total_protein', total_protein_best, res))
         else (total_calories', total_protein', total_protein_best, res))"

function exhaustive_for ::
  "FoodVector \<Rightarrow> int \<Rightarrow> nat \<Rightarrow> nat \<Rightarrow> int \<times> int \<times> int \<times> FoodVector \<Rightarrow> int \<times> int \<times> int \<times> FoodVector" where
  "exhaustive_for foods total_kcal n bits st =
     (if bits < 2 ^ n
      then exhaustive_for foods total_kcal n (bits + 1) (exhaustive_body foods total_kcal n bits st)
      else st)"
  by pat_completeness auto
termination
  by (relation "measure (\<lambda>(foods, total_kcal, n, bits, st). 2 ^ n - bits)") auto

declare exhaustive_for.simps [simp del]

definition exhaustive_max_protein :: "FoodVector \<Rightarrow> int \<Rightarrow> error + FoodVector" where
  "exhaustive_max_protein foods total_kcal =
     (let n = length foods in
      if \<not> n < 64 then Inl AssertionFailed
      else (case exhaustive_for foods total_kcal n 0 (0, 0, 0, []) of
              (total_calories, total_protein, total_protein_best, res) \<Rightarrow> Inr res))"

section \<open>Sample records\<close>

text \<open>
  The constructor call \<open>Food(d, "1 serving", 100, k, p)\<close>: a record with description
  \<open>d\<close>, \<open>k\<close> kilocalories and \<open>p\<close> grams of protein, used for the concrete scenarios.
\<close>

definition food :: "string \<Rightarrow> int \<Rightarrow> int \<Rightarrow> Food" where
  "food d k p = \<lparr>description = d, amount = ''1 serving'', amount_g = 100, kcal = k, protein_g = p\<rparr>"

section \<open>Sums within the range of int\<close>

text \<open>
  A sum of non-negative terms that stays below \<open>2 ^ 31\<close> is computed exactly: no step of
  the accumulation wraps.
\<close>

lemma int32_id: "- (2 ^ 31) \<le> x \<Longrightarrow> x < 2 ^ 31 \<Longrightarrow> int32 x = x"
  by (simp add: int32_def)

lemma fold_int32_add:
  "\<forall>x \<in> set xs. 0 \<le> g x \<Longrightarrow> 0 \<le> a \<Longrightarrow> a + sum_list (map g xs) < 2 ^ 31 \<Longrightarrow>
   fold (\<lambda>f t. int32 (t + g f)) xs a = a + sum_list (map g xs)"
proof (induction xs arbitrary: a)
  case Nil
  then show ?case by simp
next
  case (Cons x xs)
  from Cons.prems have rest: "0 \<le> sum_list (map g xs)"
    by (intro sum_list_nonneg) auto
  from Cons.prems have gx: "0 \<le> g x" by simp
  with rest Cons.prems have "int32 (a + g x) = a + g x"
    by (intro int32_id) simp_all
  moreover from Cons.prems gx have "0 \<le> a + g x" "a + g x + sum_list (map g xs) < 2 ^ 31"
    by simp_all
  moreover from Cons.prems have "\<forall>y \<in> set xs. 0 \<le> g y" by simp
  ultimately show ?case
    using Cons.IH [of "a + g x"] by simp
qed

lemma fold_totals:
  "fold (\<lambda>food (total_kcal, total_protein_g).
           (int32 (total_kcal + kcal food), int32 (total_protein_g + protein_g food))) foods (a, b)
     = (fold (\<lambda>f t. int32 (t + kcal f)) foods a, fold (\<lambda>f t. int32 (t + protein_g f)) foods b)"
  by (induction foods arbitrary: a b) simp_all

lemma fst_sum_food_vector:
  "\<forall>f \<in> set foods. 0 \<le> kcal f \<Longrightarrow> sum_list (map kcal foods) < 2 ^ 31 \<Longrightarrow>
   fst (sum_food_vector foods) = sum_list (map kcal foods)"
  by (simp add: sum_food_vector_def fold_totals fold_int32_add)

section \<open>The loops in closed form\<close>

text \<open>
  The loop of \<open>filter_food_vector\<close>, started at index \<open>n\<close> with \<open>cnt\<close> records already
  admitted, appends the first \<open>total_size - cnt\<close> matching records of the rest of the source.
\<close>

lemma filter_for_eq:
  "n \<le> length source \<Longrightarrow>
   filter_for source min_kcal max_kcal total_size (length source) n cnt acc =
     acc @ take (nat (total_size - cnt))
             (filter (\<lambda>r. kcal r \<noteq> 0 \<and> min_kcal \<le> kcal r \<and> kcal r \<le> max_kcal) (drop n source))"
proof (induction source min_kcal max_kcal total_size "length source" n cnt acc rule: filter_for.induct)
  case (1 source min_kcal max_kcal total_size n cnt acc)
  show ?case
  proof (cases "n < length source \<and> cnt < total_size")
    case False
    then have "drop n source = [] \<or> nat (total_size - cnt) = 0"
      by auto
    with False show ?thesis
      by (subst filter_for.simps) auto
  next
    case True
    then have d: "drop n source = source ! n # drop (Suc n) source"
      by (simp add: Cons_nth_drop_Suc)
    from True have pos: "nat (total_size - cnt) = Suc (nat (total_size - (cnt + 1)))"
      by linarith
    from True have le: "n + 1 \<le> length source" by simp
    show ?thesis
    proof (cases "kcal (source ! n) \<noteq> 0 \<and> kcal (source ! n) \<ge> min_kcal \<and> kcal (source ! n) \<le> max_kcal")
      case yes: True
      from "1.hyps"(1) [OF True yes le] True yes show ?thesis
        by (subst filter_for.simps) (simp add: d pos)
    next
      case no: False
      from "1.hyps"(2) [OF True no le] True no show ?thesis
        by (subst filter_for.simps) (auto simp add: d)
    qed
  qed
qed

text \<open>The outer loop of \<open>exhaustive_max_protein\<close> runs its body once for every remaining value of \<open>bits\<close>, in increasing order.\<close>

lemma exhaustive_for_fold:
  "exhaustive_for foods total_kcal n bits st =
     fold (exhaustive_body foods total_kcal n) [bits..<2 ^ n] st"
proof (induction foods total_kcal n bits st rule: exhaustive_for.induct)
  case (1 foods total_kcal n bits st)
  show ?case
  proof (cases "bits < 2 ^ n")
    case True
    then have "[bits..<2 ^ n] = bits # [bits + 1..<2 ^ n]"
      by (simp add: upt_conv_Cons)
    with True "1.IH" show ?thesis
      by (subst exhaustive_for.simps) simp
  next
    case False
    then show ?thesis
      by (subst exhaustive_for.simps) simp
  qed
qed

text \<open>A scan over records without protein assigns nothing.\<close>

lemma scan_no_protein:
  "\<forall>i \<in> set idxs. protein_g (todo ! i) = 0 \<Longrightarrow>
   fold (scan_step todo) idxs (0, protein_location, c) = (0, protein_location, c)"
  by (induction idxs) (simp_all add: scan_step_def)

section \<open>Properties of filter_food_vector\<close>

text \<open>
  C5. For every source sequence whose records satisfy the constructor's assertion
  \<open>kcal >= 0\<close>, all thresholds and every count, \<open>filter_food_vector\<close> returns exactly the
  records with \<open>kcal > 0\<close> and \<open>min_kcal <= kcal <= max_kcal\<close>, in their original order, cut
  to the first \<open>total_size\<close> of them; the output holds no zero-calorie record and at most
  \<open>total_size\<close> records (none when \<open>total_size\<close> is negative).
\<close>

theorem filter_food_vector_spec:
  assumes "\<forall>r \<in> set source. 0 \<le> kcal r"
  shows "filter_food_vector source min_kcal max_kcal total_size =
           take (nat total_size)
             (filter (\<lambda>r. 0 < kcal r \<and> min_kcal \<le> kcal r \<and> kcal r \<le> max_kcal) source)
         \<and> (\<forall>r \<in> set (filter_food_vector source min_kcal max_kcal total_size). kcal r \<noteq> 0)
         \<and> length (filter_food_vector source min_kcal max_kcal total_size) \<le> nat total_size"
proof -
  let ?P = "\<lambda>r. kcal r \<noteq> 0 \<and> min_kcal \<le> kcal r \<and> kcal r \<le> max_kcal"
  let ?Q = "\<lambda>r. 0 < kcal r \<and> min_kcal \<le> kcal r \<and> kcal r \<le> max_kcal"
  have eq: "filter_food_vector source min_kcal max_kcal total_size = take (nat total_size) (filter ?P source)"
    by (simp add: filter_food_vector_def filter_for_eq)
  have "filter ?P source = filter ?Q source"
    using assms by (intro filter_cong) (auto simp: less_le)
  with eq have eq': "filter_food_vector source min_kcal max_kcal total_size = take (nat total_size) (filter ?Q source)"
    by simp
  have "\<forall>r \<in> set (take (nat total_size) (filter ?Q source)). kcal r \<noteq> 0"
    by (auto dest!: in_set_takeD)
  with eq' show ?thesis by simp
qed

text \<open>
  The filter scenario: calories 0, 50, 2500 and 100, thresholds 10 and 2000, count 2 give the
  records with 50 and 100 calories, in that order.
\<close>

theorem filter_food_vector_spec_witness:
  "list_all (\<lambda>r. 0 \<le> kcal r) [food ''w'' 0 1, food ''x'' 50 2, food ''y'' 2500 3, food ''z'' 100 4] \<and>
   filter_food_vector [food ''w'' 0 1, food ''x'' 50 2, food ''y'' 2500 3, food ''z'' 100 4] 10 2000 2
     = [food ''x'' 50 2, food ''z'' 100 4]"
  using filter_food_vector_spec
    [of "[food ''w'' 0 1, food ''x'' 50 2, food ''y'' 2500 3, food ''z'' 100 4]" 10 2000 2]
  by (simp add: food_def)

text \<open>
  C10. With \<open>total_size <= 0\<close> the loop condition \<open>total_size_counter < total_size\<close> fails
  before the first record is looked at, and \<open>filter_food_vector\<close> returns the empty vector.
\<close>

theorem filter_nonpositive_count:
  "total_size \<le> 0 \<Longrightarrow> filter_food_vector source min_kcal max_kcal total_size = []"
  by (simp add: filter_food_vector_def filter_for.simps)

theorem filter_nonpositive_count_witness:
  "(-1 :: int) \<le> 0 \<and> filter_food_vector [food ''x'' 50 2, food ''z'' 100 4] 10 2000 (-1) = []"
  using filter_nonpositive_count [of "-1" "[food ''x'' 50 2, food ''z'' 100 4]" 10 2000]
  by simp

section \<open>Empty input\<close>

text \<open>
  C8. On the empty candidate sequence, with any thresholds or budget, \<open>filter_food_vector\<close>,
  \<open>greedy_max_protein\<close> and \<open>exhaustive_max_protein\<close> each return the empty sequence, and
  neither selector fails.
\<close>

theorem empty_candidates:
  "filter_food_vector [] min_kcal max_kcal total_size = [] \<and>
   greedy_max_protein [] total_kcal = Inr [] \<and>
   exhaustive_max_protein [] total_kcal = Inr []"
  apply (simp add: filter_food_vector_def filter_for.simps greedy_max_protein_def greedy_while.simps
       exhaustive_max_protein_def)
  apply (subst exhaustive_for.simps, simp)
  apply (subst exhaustive_for.simps, simp add: exhaustive_candidate_def)
  done

section \<open>Properties of greedy_max_protein\<close>

text \<open>
  C4. On the candidates A (100 kcal, 5 g), B (200 kcal, 20 g), C (150 kcal, 15 g) and the
  budget 300, the first scan selects B at index 1; the first iteration accepts it (consumed
  200) and erases it. The second scan selects C; 200 + 150 exceeds 300, so the second
  iteration leaves the result and the consumed calories as they are and erases C all the
  same. The third scan selects A; the third iteration accepts it (consumed 300). After these
  three iterations the working copy is empty and the result is [B, A], with 300 kcal and
  25 g of protein.
\<close>

theorem greedy_scenario:
  "greedy_scan [food ''A'' 100 5, food ''B'' 200 20, food ''C'' 150 15] 3 (0, None, None)
     = (20, Some 1, Some 200) \<and>
   greedy_iteration 300
       ([food ''A'' 100 5, food ''B'' 200 20, food ''C'' 150 15], [], 3, 0, None, None)
     = Inr ([food ''A'' 100 5, food ''C'' 150 15], [food ''B'' 200 20], 2, 200, Some 1, Some 200) \<and>
   greedy_scan [food ''A'' 100 5, food ''C'' 150 15] 2 (0, Some 1, Some 200)
     = (15, Some 1, Some 150) \<and>
   \<not> int32 (200 + 150) \<le> 300 \<and>
   greedy_iteration 300
       ([food ''A'' 100 5, food ''C'' 150 15], [food ''B'' 200 20], 2, 200, Some 1, Some 200)
     = Inr ([food ''A'' 100 5], [food ''B'' 200 20], 1, 200, Some 1, Some 150) \<and>
   greedy_scan [food ''A'' 100 5] 1 (0, Some 1, Some 150)
     = (5, Some 0, Some 100) \<and>
   greedy_iteration 300
       ([food ''A'' 100 5], [food ''B'' 200 20], 1, 200, Some 1, Some 150)
     = Inr ([], [food ''B'' 200 20, food ''A'' 100 5], 0, 300, Some 0, Some 100) \<and>
   greedy_iterate 3 300
       ([food ''A'' 100 5, food ''B'' 200 20, food ''C'' 150 15], [], 3, 0, None, None)
     = Inr ([], [food ''B'' 200 20, food ''A'' 100 5], 0, 300, Some 0, Some 100) \<and>
   greedy_max_protein [food ''A'' 100 5, food ''B'' 200 20, food ''C'' 150 15] 300
     = Inr [food ''B'' 200 20, food ''A'' 100 5] \<and>
   sum_food_vector [food ''B'' 200 20, food ''A'' 100 5] = (300, 25)"
  by code_simp

text \<open>
  C9. When the candidate sequence is not empty and every record has 0 g of protein, the
  test \<open>protein < todo[i]->protein_g()\<close> never succeeds in the first scan, so
  \<open>protein_location\<close> and \<open>c\<close> are still unassigned when the acceptance test reads \<open>c\<close>:
  the call ends in the error for the read of an unassigned variable.
\<close>

theorem greedy_all_zero_protein:
  assumes "foods \<noteq> []" and "\<forall>f \<in> set foods. protein_g f = 0"
  shows "greedy_scan foods (length foods) (0, None, None) = (0, None, None) \<and>
         greedy_max_protein foods total_kcal = Inl UninitializedRead"
proof -
  have "\<forall>i \<in> set [0..<length foods]. protein_g (foods ! i) = 0"
    using assms(2) by simp
  then have scan: "greedy_scan foods (length foods) (0, None, None) = (0, None, None)"
    unfolding greedy_scan_def by (rule scan_no_protein)
  from assms(1) have "length foods \<noteq> 0" by simp
  with scan show ?thesis
    by (simp add: greedy_max_protein_def greedy_iteration_def
          greedy_while.simps [of _ _ _ "length foods"])
qed

theorem greedy_all_zero_protein_witness:
  "[food ''oil'' 120 0, food ''sugar'' 50 0] \<noteq> [] \<and>
   list_all (\<lambda>f. protein_g f = 0) [food ''oil'' 120 0, food ''sugar'' 50 0] \<and>
   greedy_scan [food ''oil'' 120 0, food ''sugar'' 50 0] 2 (0, None, None) = (0, None, None) \<and>
   greedy_max_protein [food ''oil'' 120 0, food ''sugar'' 50 0] 500 = Inl UninitializedRead"
  using greedy_all_zero_protein [of "[food ''oil'' 120 0, food ''sugar'' 50 0]" 500]
  by (simp add: food_def numeral_2_eq_2)

text \<open>
  An iteration that runs erases one record of the working copy, accepted or not, and
  decrements \<open>size\<close>.
\<close>

lemma length_erase: "i < length xs \<Longrightarrow> length (erase xs i) = length xs - 1"
  by (simp add: erase_def)

lemma set_erase: "set (erase xs i) \<subseteq> set xs"
  by (auto simp: erase_def dest: in_set_takeD in_set_dropD)

lemma sum_list_erase:
  "i < length xs \<Longrightarrow> sum_list (map g (erase xs i)) + g (xs ! i) = (sum_list (map g xs) :: int)"
proof -
  assume "i < length xs"
  then have "xs = take i xs @ xs ! i # drop (Suc i) xs"
    by (rule id_take_nth_drop)
  then have "sum_list (map g xs) = sum_list (map g (take i xs @ xs ! i # drop (Suc i) xs))"
    by simp
  then show ?thesis
    by (simp add: erase_def)
qed

lemma greedy_iteration_removes_one:
  assumes "greedy_iteration total_kcal (todo, res, sz, result_cal, l, c)
             = Inr (todo', res', sz', result_cal', l', c')"
  shows "length todo' + 1 = length todo \<and> sz' = sz - 1 \<and>
         (\<exists>pl < length todo. todo' = erase todo pl \<and> (res' = res \<or> res' = res @ [todo ! pl]))"
  using assms
  by (auto simp: greedy_iteration_def length_erase split: prod.splits option.splits if_splits)

text \<open>The loop after \<open>k\<close> iterations that ran goes on from the state they reached.\<close>

lemma greedy_while_iterate:
  "greedy_iterate k total_kcal (todo, res, sz, result_cal, l, c)
     = Inr (todo', res', sz', result_cal', l', c') \<Longrightarrow> k \<le> sz \<Longrightarrow>
   greedy_while total_kcal todo res sz result_cal l c
     = greedy_while total_kcal todo' res' sz' result_cal' l' c' \<and> sz' = sz - k"
proof (induction k arbitrary: todo res sz result_cal l c)
  case 0
  then show ?case by simp
next
  case (Suc k)
  from Suc.prems(1) obtain todo1 res1 sz1 rc1 l1 c1 where
    step: "greedy_iteration total_kcal (todo, res, sz, result_cal, l, c) = Inr (todo1, res1, sz1, rc1, l1, c1)"
    and rest: "greedy_iterate k total_kcal (todo1, res1, sz1, rc1, l1, c1)
                 = Inr (todo', res', sz', result_cal', l', c')"
    by (auto split: sum.splits)
  from greedy_iteration_removes_one [OF step] have sz1: "sz1 = sz - 1"
    by simp
  with Suc.prems(2) have "k \<le> sz1" "sz \<noteq> 0"
    by simp_all
  with Suc.IH [OF rest] step sz1 show ?case
    by (subst greedy_while.simps) simp
qed

text \<open>
  When every record has a positive amount of protein, every scan selects a position of the
  working copy together with the calories of the record at that position.
\<close>

lemma scan_keeps_selection:
  "\<forall>i \<in> set idxs. i < length todo \<Longrightarrow> pl < length todo \<Longrightarrow>
   \<exists>p pl'. fold (scan_step todo) idxs (p0, Some pl, Some (kcal (todo ! pl)))
              = (p, Some pl', Some (kcal (todo ! pl'))) \<and> pl' < length todo"
proof (induction idxs arbitrary: p0 pl)
  case Nil
  then show ?case by simp
next
  case (Cons i idxs)
  show ?case
  proof (cases "p0 < protein_g (todo ! i)")
    case True
    then have "scan_step todo i (p0, Some pl, Some (kcal (todo ! pl)))
                 = (protein_g (todo ! i), Some i, Some (kcal (todo ! i)))"
      by (simp add: scan_step_def)
    moreover from Cons.prems have "i < length todo" "\<forall>j \<in> set idxs. j < length todo"
      by simp_all
    ultimately show ?thesis
      using Cons.IH [of i "protein_g (todo ! i)"] by simp
  next
    case False
    then have "scan_step todo i (p0, Some pl, Some (kcal (todo ! pl)))
                 = (p0, Some pl, Some (kcal (todo ! pl)))"
      by (simp add: scan_step_def)
    moreover from Cons.prems have "pl < length todo" "\<forall>j \<in> set idxs. j < length todo"
      by simp_all
    ultimately show ?thesis
      using Cons.IH [of pl p0] by simp
  qed
qed

lemma scan_selects:
  assumes "todo \<noteq> []" and "\<forall>f \<in> set todo. 0 < protein_g f"
  shows "\<exists>p pl. greedy_scan todo (length todo) (0, l, c) = (p, Some pl, Some (kcal (todo ! pl)))
                 \<and> pl < length todo"
proof -
  from assms(1) have pos: "0 < length todo" by simp
  then have idxs: "[0..<length todo] = 0 # [Suc 0..<length todo]"
    by (simp add: upt_conv_Cons)
  from assms pos have "0 < protein_g (todo ! 0)"
    by (simp add: nth_mem del: length_greater_0_conv)
  then have first: "scan_step todo 0 (0, l, c) = (protein_g (todo ! 0), Some 0, Some (kcal (todo ! 0)))"
    by (simp add: scan_step_def)
  have "\<forall>i \<in> set [Suc 0..<length todo]. i < length todo" by simp
  from scan_keeps_selection [OF this pos, of "protein_g (todo ! 0)"] first idxs
  show ?thesis
    by (simp add: greedy_scan_def)
qed

lemma greedy_iteration_positive:
  assumes "todo \<noteq> []" and "\<forall>f \<in> set todo. 0 < protein_g f"
  shows "\<exists>todo' res' result_cal' l' c'.
           greedy_iteration total_kcal (todo, res, length todo, result_cal, l, c)
             = Inr (todo', res', length todo - 1, result_cal', l', c') \<and>
           length todo' = length todo - 1 \<and> (\<forall>f \<in> set todo'. 0 < protein_g f)"
proof -
  from scan_selects [OF assms, of l c]
  obtain p pl where scan: "greedy_scan todo (length todo) (0, l, c) = (p, Some pl, Some (kcal (todo ! pl)))"
    and pl: "pl < length todo"
    by auto
  from assms(2) set_erase [of todo pl] have "\<forall>f \<in> set (erase todo pl). 0 < protein_g f"
    by blast
  with scan pl show ?thesis
    by (simp add: greedy_iteration_def length_erase)
qed

lemma greedy_iterate_positive:
  "\<forall>f \<in> set todo. 0 < protein_g f \<Longrightarrow> k \<le> length todo \<Longrightarrow>
   \<exists>todo' res' result_cal' l' c'.
     greedy_iterate k total_kcal (todo, res, length todo, result_cal, l, c)
       = Inr (todo', res', length todo - k, result_cal', l', c') \<and>
     length todo' = length todo - k"
proof (induction k arbitrary: todo res result_cal l c)
  case 0
  then show ?case by simp
next
  case (Suc k)
  from Suc.prems(2) have ne: "todo \<noteq> []" by auto
  from greedy_iteration_positive [OF ne Suc.prems(1), of total_kcal res result_cal l c]
  obtain todo1 res1 rc1 l1 c1 where
    step: "greedy_iteration total_kcal (todo, res, length todo, result_cal, l, c)
             = Inr (todo1, res1, length todo - 1, rc1, l1, c1)"
    and len: "length todo1 = length todo - 1" and pos: "\<forall>f \<in> set todo1. 0 < protein_g f"
    by blast
  from Suc.prems(2) len have "k \<le> length todo1" by simp
  from Suc.IH [OF pos this, of res1 rc1 l1 c1] step len show ?case
    by auto
qed

text \<open>
  On such candidates the loop ends after as many iterations as there are candidates, with
  an empty working copy.
\<close>

lemma greedy_positive_iterations:
  assumes "\<forall>f \<in> set foods. 0 < protein_g f"
  shows "\<exists>res' result_cal' l' c'.
           greedy_iterate (length foods) total_kcal (foods, [], length foods, 0, None, None)
             = Inr ([], res', 0, result_cal', l', c') \<and>
           greedy_max_protein foods total_kcal = Inr res'"
proof -
  from greedy_iterate_positive [OF assms order_refl, of total_kcal "[]" 0 None None]
  obtain todo' res' rc' l' c' where
    it: "greedy_iterate (length foods) total_kcal (foods, [], length foods, 0, None, None)
           = Inr (todo', res', 0, rc', l', c')"
    and "length todo' = 0"
    by auto
  then have "todo' = []" by simp
  moreover from greedy_while_iterate [OF it order_refl]
  have "greedy_max_protein foods total_kcal = Inr res'"
    by (simp add: greedy_max_protein_def greedy_while.simps [of _ _ _ 0])
  ultimately show ?thesis
    using it by auto
qed

text \<open>
  If moreover the calories are non-negative with a sum below \<open>2 ^ 31\<close> and the budget is
  non-negative, the calories of the result are the \<open>result_cal\<close> that the acceptance test
  keeps within the budget.
\<close>

lemma greedy_while_positive:
  "sz = length todo \<Longrightarrow> \<forall>f \<in> set todo. 0 < protein_g f \<Longrightarrow> \<forall>f \<in> set todo. 0 \<le> kcal f \<Longrightarrow>
   0 \<le> result_cal \<Longrightarrow> result_cal + sum_list (map kcal todo) < 2 ^ 31 \<Longrightarrow>
   sum_list (map kcal res) = result_cal \<Longrightarrow> result_cal \<le> total_kcal \<Longrightarrow>
   \<exists>r. greedy_while total_kcal todo res sz result_cal l c = Inr r \<and> sum_list (map kcal r) \<le> total_kcal"
proof (induction sz arbitrary: todo res result_cal l c)
  case 0
  then show ?case by (simp add: greedy_while.simps)
next
  case (Suc n)
  from Suc.prems(1) have ne: "todo \<noteq> []" by auto
  from scan_selects [OF ne Suc.prems(2), of l c] Suc.prems(1)
  obtain p pl where scan: "greedy_scan todo (Suc n) (0, l, c) = (p, Some pl, Some (kcal (todo ! pl)))"
    and pl: "pl < length todo"
    by auto
  let ?x = "todo ! pl"
  from pl Suc.prems(1) have len: "n = length (erase todo pl)"
    by (simp add: length_erase)
  from Suc.prems(2) set_erase [of todo pl] have posp: "\<forall>f \<in> set (erase todo pl). 0 < protein_g f"
    by blast
  from Suc.prems(3) set_erase [of todo pl] have posk: "\<forall>f \<in> set (erase todo pl). 0 \<le> kcal f"
    by blast
  then have rest: "0 \<le> sum_list (map kcal (erase todo pl))"
    by (intro sum_list_nonneg) auto
  from pl Suc.prems(3) have x: "0 \<le> kcal ?x" by simp
  have split: "sum_list (map kcal (erase todo pl)) + kcal ?x = sum_list (map kcal todo)"
    using pl by (rule sum_list_erase)
  with rest x Suc.prems(4,5) have wrap: "int32 (result_cal + kcal ?x) = result_cal + kcal ?x"
    by (intro int32_id) simp_all
  show ?case
  proof (cases "result_cal + kcal ?x \<le> total_kcal")
    case True
    have "\<exists>r. greedy_while total_kcal (erase todo pl) (res @ [?x]) n (result_cal + kcal ?x)
                 (Some pl) (Some (kcal ?x)) = Inr r \<and> sum_list (map kcal r) \<le> total_kcal"
      using len posp posk x split Suc.prems(4,5,6) True
      by (intro Suc.IH) simp_all
    with scan pl True wrap show ?thesis
      by (subst greedy_while.simps) (simp add: greedy_iteration_def)
  next
    case False
    have "\<exists>r. greedy_while total_kcal (erase todo pl) res n result_cal
                 (Some pl) (Some (kcal ?x)) = Inr r \<and> sum_list (map kcal r) \<le> total_kcal"
      using len posp posk x split Suc.prems(4,5,6,7)
      by (intro Suc.IH) simp_all
    with scan pl False wrap show ?thesis
      by (subst greedy_while.simps) (simp add: greedy_iteration_def)
  qed
qed

lemma greedy_positive_protein:
  assumes "\<forall>f \<in> set foods. 0 < protein_g f" and "\<forall>f \<in> set foods. 0 \<le> kcal f"
    and "sum_list (map kcal foods) < 2 ^ 31" and "0 \<le> total_kcal"
  shows "\<exists>r. greedy_max_protein foods total_kcal = Inr r \<and> sum_list (map kcal r) \<le> total_kcal"
  unfolding greedy_max_protein_def
  using assms by (intro greedy_while_positive) simp_all

text \<open>
  C2 states that the records returned by \<open>greedy_max_protein\<close> never have more calories in
  total than the budget. The code breaks this once the working copy holds only records
  with 0 g of protein: the scan assigns nothing, and the acceptance test and the erase use
  the \<open>c\<close> and \<open>protein_location\<close> left by the iteration before. On A (10 kcal, 5 g),
  B (1000 kcal, 0 g) and the budget 20, A is accepted; then B, now at index 0, is accepted
  against the 10 kcal of A, and the result [A, B] has 1010 kcal.
\<close>

theorem greedy_over_budget:
  "list_all valid_food [food ''A'' 10 5, food ''B'' 1000 0] \<and>
   greedy_while 20 [food ''A'' 10 5, food ''B'' 1000 0] [] 2 0 None None
     = greedy_while 20 [food ''B'' 1000 0] [food ''A'' 10 5] 1 10 (Some 0) (Some 10) \<and>
   greedy_scan [food ''B'' 1000 0] 1 (0, Some 0, Some 10) = (0, Some 0, Some 10) \<and>
   greedy_max_protein [food ''A'' 10 5, food ''B'' 1000 0] 20
     = Inr [food ''A'' 10 5, food ''B'' 1000 0] \<and>
   fst (sum_food_vector [food ''A'' 10 5, food ''B'' 1000 0]) = 1010 \<and>
   greedy_iteration 20 ([food ''A'' 10 5, food ''B'' 1000 0], [], 2, 0, None, None)
     = Inr ([food ''B'' 1000 0], [food ''A'' 10 5], 1, 10, Some 0, Some 10) \<and>
   greedy_iteration 20 ([food ''B'' 1000 0], [food ''A'' 10 5], 1, 10, Some 0, Some 10)
     = Inr ([], [food ''A'' 10 5, food ''B'' 1000 0], 0, 20, Some 0, Some 10)"
  by code_simp

text \<open>
  C7 states that every iteration of the main loop removes exactly one record from the
  working copy, accepted or not, so that the loop ends after as many iterations as there are
  candidates. The body does erase once and decrement \<open>size\<close> once, but the position it
  erases is only assigned by a scan that finds a record with protein. On A (10 kcal, 0 g),
  B (20 kcal, 0 g) the first scan assigns nothing: the first iteration reads \<open>c\<close> and
  \<open>protein_location\<close> unassigned, removes no record, and the run does not come to the end
  of its two iterations.
\<close>

theorem greedy_unassigned_first_iteration:
  "list_all valid_food [food ''A'' 10 0, food ''B'' 20 0] \<and>
   greedy_scan [food ''A'' 10 0, food ''B'' 20 0] 2 (0, None, None) = (0, None, None) \<and>
   greedy_iteration 100 ([food ''A'' 10 0, food ''B'' 20 0], [], 2, 0, None, None)
     = Inl UninitializedRead \<and>
   greedy_iterate (length [food ''A'' 10 0, food ''B'' 20 0]) 100
       ([food ''A'' 10 0, food ''B'' 20 0], [], 2, 0, None, None)
     = Inl UninitializedRead \<and>
   greedy_max_protein [food ''A'' 10 0, food ''B'' 20 0] 100 = Inl UninitializedRead"
  by code_simp

section \<open>Properties of exhaustive_max_protein\<close>

text \<open>
  C6. A candidate sequence of 64 or more records fails the assertion \<open>n < 64\<close> and
  \<open>exhaustive_max_protein\<close> returns no result; with fewer than 64 records the assertion
  holds and the call returns a result.
\<close>

theorem exhaustive_precondition:
  "(64 \<le> length foods \<longrightarrow> exhaustive_max_protein foods total_kcal = Inl AssertionFailed) \<and>
   (length foods < 64 \<longrightarrow> (\<exists>res. exhaustive_max_protein foods total_kcal = Inr res))"
  by (simp add: exhaustive_max_protein_def split: prod.splits)

theorem exhaustive_precondition_witness:
  "64 \<le> length (replicate 64 (food ''A'' 100 5)) \<and>
   exhaustive_max_protein (replicate 64 (food ''A'' 100 5)) 300 = Inl AssertionFailed \<and>
   length [food ''A'' 100 5] < 64 \<and>
   (\<exists>res. exhaustive_max_protein [food ''A'' 100 5] 300 = Inr res)"
  using exhaustive_precondition [of "replicate 64 (food ''A'' 100 5)" 300]
        exhaustive_precondition [of "[food ''A'' 100 5]" 300]
  by simp

text \<open>
  With non-negative calories and protein, a non-negative budget and running totals that
  stay below \<open>2 ^ 31\<close>, the result stays within the budget: the running total that the
  budget test reads is never below the calories of the trial subset. Below 54 candidates
  the comparison of \<open>bits\<close> with \<open>pow(2.0, n)\<close> is exact.
\<close>

lemma candidate_fold_sum:
  "\<forall>j \<in> set js. 0 \<le> kcal (foods ! j) \<Longrightarrow>
   sum_list (map kcal
     (fold (\<lambda>j candidate. if drop_bit j bits AND 1 = 1 then candidate @ [foods ! j] else candidate) js acc))
     \<le> sum_list (map kcal acc) + sum_list (map (\<lambda>j. kcal (foods ! j)) js)"
proof (induction js arbitrary: acc)
  case Nil
  then show ?case by simp
next
  case (Cons j js)
  from Cons.prems have "\<forall>i \<in> set js. 0 \<le> kcal (foods ! i)" and j: "0 \<le> kcal (foods ! j)"
    by simp_all
  from Cons.IH [OF this(1), of "acc @ [foods ! j]"] Cons.IH [OF this(1), of acc] j
  show ?case
    by auto
qed

lemma candidate_fold_subset:
  "\<forall>j \<in> set js. j < length foods \<Longrightarrow> set acc \<subseteq> set foods \<Longrightarrow>
   set (fold (\<lambda>j candidate. if drop_bit j bits AND 1 = 1 then candidate @ [foods ! j] else candidate) js acc)
     \<subseteq> set foods"
  by (induction js arbitrary: acc) simp_all

lemma candidate_subset: "set (exhaustive_candidate foods (length foods) bits) \<subseteq> set foods"
  unfolding exhaustive_candidate_def by (rule candidate_fold_subset) simp_all

lemma candidate_sum:
  assumes "\<forall>f \<in> set foods. 0 \<le> kcal f"
  shows "sum_list (map kcal (exhaustive_candidate foods (length foods) bits)) \<le> sum_list (map kcal foods)"
proof -
  have "map (\<lambda>j. kcal (foods ! j)) [0..<length foods] = map kcal foods"
    by (rule nth_equalityI) simp_all
  moreover have "\<forall>j \<in> set [0..<length foods]. 0 \<le> kcal (foods ! j)"
    using assms by simp
  ultimately show ?thesis
    unfolding exhaustive_candidate_def
    using candidate_fold_sum [of "[0..<length foods]" foods bits "[]"] by simp
qed

lemma exhaustive_body_budget:
  assumes "\<forall>f \<in> set foods. 0 \<le> kcal f"
    and "0 \<le> total_calories" and "total_calories + sum_list (map kcal foods) < 2 ^ 31"
    and "sum_list (map kcal res) \<le> total_kcal"
    and "exhaustive_body foods total_kcal (length foods) bits (total_calories, total_protein, best, res)
           = (total_calories', total_protein', best', res')"
  shows "0 \<le> total_calories' \<and> total_calories' \<le> total_calories + sum_list (map kcal foods) \<and>
         sum_list (map kcal res') \<le> total_kcal"
proof -
  let ?cand = "exhaustive_candidate foods (length foods) bits"
  from candidate_subset [of foods bits] assms(1) have pos: "\<forall>f \<in> set ?cand. 0 \<le> kcal f"
    by blast
  then have nonneg: "0 \<le> sum_list (map kcal ?cand)"
    by (intro sum_list_nonneg) auto
  from candidate_sum [OF assms(1), of bits] assms(3)
  have le: "sum_list (map kcal ?cand) \<le> sum_list (map kcal foods)"
    and "total_calories + sum_list (map kcal ?cand) < 2 ^ 31"
    by simp_all
  with pos assms(2)
  have run: "fold (\<lambda>f t. int32 (t + kcal f)) ?cand total_calories = total_calories + sum_list (map kcal ?cand)"
    by (intro fold_int32_add) simp_all
  from assms(5) run have tc: "total_calories' = total_calories + sum_list (map kcal ?cand)"
    by (auto simp: Let_def split: if_splits)
  from assms(5) run have "res' = res \<or> (res' = ?cand \<and> total_calories' \<le> total_kcal)"
    by (auto simp: Let_def split: if_splits)
  with tc nonneg le assms(2,4) show ?thesis
    by auto
qed

lemma exhaustive_fold_budget:
  assumes "\<forall>f \<in> set foods. 0 \<le> kcal f"
  shows "0 \<le> fst st \<Longrightarrow> fst st + int (length bs) * sum_list (map kcal foods) < 2 ^ 31 \<Longrightarrow>
         sum_list (map kcal (snd (snd (snd st)))) \<le> total_kcal \<Longrightarrow>
         sum_list (map kcal (snd (snd (snd (fold (exhaustive_body foods total_kcal (length foods)) bs st)))))
           \<le> total_kcal"
proof (induction bs arbitrary: st)
  case Nil
  then show ?case by simp
next
  case (Cons b bs)
  let ?S = "sum_list (map kcal foods)"
  have S: "0 \<le> ?S"
    using assms by (intro sum_list_nonneg) auto
  obtain tc tp best res where st: "st = (tc, tp, best, res)"
    by (cases st) auto
  obtain tc' tp' best' res' where
    step: "exhaustive_body foods total_kcal (length foods) b (tc, tp, best, res) = (tc', tp', best', res')"
    by (cases "exhaustive_body foods total_kcal (length foods) b (tc, tp, best, res)") auto
  from Cons.prems st have tc: "0 \<le> tc" and bound: "tc + ?S + int (length bs) * ?S < 2 ^ 31"
    and res: "sum_list (map kcal res) \<le> total_kcal"
    by (simp_all add: algebra_simps)
  have "0 \<le> int (length bs) * ?S"
    using S by simp
  with bound have "tc + ?S < 2 ^ 31"
    by linarith
  from exhaustive_body_budget [OF assms tc this res step]
  have "0 \<le> tc'" "tc' \<le> tc + ?S" "sum_list (map kcal res') \<le> total_kcal"
    by simp_all
  with bound Cons.IH [of "(tc', tp', best', res')"] st step show ?case
    by simp
qed

lemma exhaustive_within_budget:
  assumes "length foods < 54" and "\<forall>f \<in> set foods. 0 \<le> kcal f" and "0 \<le> total_kcal"
    and "2 ^ length foods * sum_list (map kcal foods) < 2 ^ 31"
    and "\<forall>f \<in> set foods. 0 \<le> protein_g f"
    and "2 ^ length foods * sum_list (map protein_g foods) < 2 ^ 31"
  shows "\<exists>r. exhaustive_max_protein foods total_kcal = Inr r \<and> sum_list (map kcal r) \<le> total_kcal"
proof -
  have "sum_list (map kcal (snd (snd (snd
          (fold (exhaustive_body foods total_kcal (length foods)) [0..<2 ^ length foods] (0, 0, 0, []))))))
          \<le> total_kcal"
    using assms(3,4) by (intro exhaustive_fold_budget [OF assms(2)]) simp_all
  with assms(1) show ?thesis
    by (auto simp: exhaustive_max_protein_def exhaustive_for_fold Let_def split: prod.splits)
qed

text \<open>
  The body treats a best protein of 0 as no best at all: when the running total of calories
  is within the budget and \<open>total_protein_best\<close> is 0, the trial subset becomes the result,
  whatever its protein.
\<close>

lemma exhaustive_body_zero_best:
  assumes "fold (\<lambda>f t. int32 (t + kcal f)) (exhaustive_candidate foods n bits) total_calories \<le> total_kcal"
  shows "snd (snd (snd (exhaustive_body foods total_kcal n bits (total_calories, total_protein, 0, res))))
           = exhaustive_candidate foods n bits"
  using assms by (simp add: Let_def)

text \<open>
  C1 states that the subset returned by \<open>exhaustive_max_protein\<close> is within the budget and
  that no subset within the budget has more protein. The code breaks the second part:
  \<open>total_calories\<close> and \<open>total_protein\<close> are never set back to 0 between two values of
  \<open>bits\<close>, so each trial subset is tested against the calories of all the subsets before
  it as well. On A (100 kcal, 5 g), B (100 kcal, 10 g) and the budget 100 the code returns
  [A]; the subset [B] is within the budget and has more protein.
\<close>

theorem exhaustive_not_optimal:
  "list_all valid_food [food ''A'' 100 5, food ''B'' 100 10] \<and>
   exhaustive_max_protein [food ''A'' 100 5, food ''B'' 100 10] 100 = Inr [food ''A'' 100 5] \<and>
   [food ''B'' 100 10] \<in> set (subseqs [food ''A'' 100 5, food ''B'' 100 10]) \<and>
   fst (sum_food_vector [food ''B'' 100 10]) \<le> 100 \<and>
   snd (sum_food_vector [food ''A'' 100 5]) < snd (sum_food_vector [food ''B'' 100 10])"
  by code_simp

text \<open>
  C3 states that a trial subset whose total calories are within the budget replaces the
  current best whenever the best protein recorded so far is 0, even when its own protein is
  0. The test \<open>total_protein_best == 0\<close> is there, but the budget test before it reads the
  running \<open>total_calories\<close>, which is never set back to 0. On A (10 kcal, 0 g),
  B (10 kcal, 0 g) and the budget 30, the subset [A] of \<open>bits = 1\<close> is overwritten by
  the subset [B] of \<open>bits = 2\<close>; the state before \<open>bits = 3\<close> has the best protein 0
  and the result [B]; the trial subset [A, B] has 20 kcal, within the budget, but the
  running total is 40 and the result stays [B].
\<close>

theorem exhaustive_zero_best_not_replaced:
  "list_all valid_food [food ''A'' 10 0, food ''B'' 10 0] \<and>
   exhaustive_body [food ''A'' 10 0, food ''B'' 10 0] 30 2 1
     (exhaustive_body [food ''A'' 10 0, food ''B'' 10 0] 30 2 0 (0, 0, 0, []))
     = (10, 0, 0, [food ''A'' 10 0]) \<and>
   exhaustive_body [food ''A'' 10 0, food ''B'' 10 0] 30 2 2
     (exhaustive_body [food ''A'' 10 0, food ''B'' 10 0] 30 2 1
       (exhaustive_body [food ''A'' 10 0, food ''B'' 10 0] 30 2 0 (0, 0, 0, [])))
     = (20, 0, 0, [food ''B'' 10 0]) \<and>
   exhaustive_candidate [food ''A'' 10 0, food ''B'' 10 0] 2 3 = [food ''A'' 10 0, food ''B'' 10 0] \<and>
   sum_food_vector [food ''A'' 10 0, food ''B'' 10 0] = (20, 0) \<and>
   exhaustive_body [food ''A'' 10 0, food ''B'' 10 0] 30 2 3 (20, 0, 0, [food ''B'' 10 0])
     = (40, 0, 0, [food ''B'' 10 0]) \<and>
   exhaustive_max_protein [food ''A'' 10 0, food ''B'' 10 0] 30 = Inr [food ''B'' 10 0]"
  by code_simp

end
